theory Spec2Isabelle
  imports Complex_Main "HOL-Library.Word"
begin

section \<open>The clock/reset generator \<open>_CRG\<close>: the logic it describes\<close>

text \<open>
  Both targets, \<^verbatim>\<open>crosslink_nx_evn.py\<close> and \<^verbatim>\<open>crosslink_nx_eval.py\<close>, contain the
  same \<^verbatim>\<open>_CRG\<close> class. Its constructor describes synchronous logic in two clock
  domains:
  \<^verbatim>\<open>
      self.clock_domains.cd_por = ClockDomain()
      self.clock_domains.cd_sys = ClockDomain()
      ...
      por_count = Signal(16, reset=2**16-1)
      por_done  = Signal()
      self.comb += por_done.eq(por_count == 0)
      self.sync.por += If(~por_done, por_count.eq(por_count - 1))

      self.rst_n = platform.request("gsrn")
      self.specials += AsyncResetSynchronizer(self.cd_por, ~self.rst_n)
      ...
      self.specials += AsyncResetSynchronizer(self.cd_sys, ~self.sys_pll.locked |  ~por_done )
  \<close>
  The model below is the transition system of that logic. Time is a sequence of
  instants; at each instant the two external signals have a value and each of the two
  free-running clocks may or may not have a rising edge.
\<close>

record instant =
  rst_n :: bool     \<comment> \<open>the pad \<^verbatim>\<open>gsrn\<close>, active low\<close>
  locked :: bool    \<comment> \<open>\<^verbatim>\<open>sys_pll.locked\<close>\<close>
  por_edge :: bool  \<comment> \<open>a rising edge of \<^verbatim>\<open>cd_por.clk\<close> at this instant\<close>
  sys_edge :: bool  \<comment> \<open>a rising edge of \<^verbatim>\<open>cd_sys.clk\<close> at this instant\<close>

text \<open>
  \<^verbatim>\<open>AsyncResetSynchronizer(cd, async_reset)\<close> is the reset synchronizer of the
  hardware-description framework: two flip-flops in a chain, clocked by \<^verbatim>\<open>cd.clk\<close>, both
  preset asynchronously by \<^verbatim>\<open>async_reset\<close>; the first samples constant 0, the second
  samples the first and drives \<^verbatim>\<open>cd.rst\<close>. So \<^verbatim>\<open>cd.rst\<close> is asserted as soon as
  \<^verbatim>\<open>async_reset\<close> is, and released by the second clock edge after \<^verbatim>\<open>async_reset\<close> is.
\<close>

record resetsync =
  rst1 :: bool  \<comment> \<open>the first flip-flop\<close>
  rst :: bool   \<comment> \<open>the second flip-flop, \<^verbatim>\<open>cd.rst\<close>\<close>

definition AsyncResetSynchronizer_rst :: "resetsync \<Rightarrow> bool \<Rightarrow> bool" where
  "AsyncResetSynchronizer_rst ff async_reset = (async_reset \<or> rst ff)"

definition AsyncResetSynchronizer_next :: "resetsync \<Rightarrow> bool \<Rightarrow> bool \<Rightarrow> resetsync" where
  "AsyncResetSynchronizer_next ff async_reset edge =
     (if async_reset then \<lparr>rst1 = True, rst = True\<rparr>
      else if edge then \<lparr>rst1 = False, rst = rst1 ff\<rparr>
      else ff)"

record crg_state =
  por_count :: "16 word"   \<comment> \<open>\<^verbatim>\<open>Signal(16, reset=2**16-1)\<close>\<close>
  por_sync :: resetsync    \<comment> \<open>the synchronizer of \<^verbatim>\<open>cd_por\<close>\<close>
  sys_sync :: resetsync    \<comment> \<open>the synchronizer of \<^verbatim>\<open>cd_sys\<close>\<close>

definition por_count_reset :: "16 word" where
  "por_count_reset = 2 ^ 16 - 1"

text \<open>\<^verbatim>\<open>self.comb += por_done.eq(por_count == 0)\<close>\<close>

definition por_done :: "crg_state \<Rightarrow> bool" where
  "por_done s = (por_count s = 0)"

text \<open>The two reset requests, as the constructor passes them to the synchronizers.\<close>

definition por_async_reset :: "instant \<Rightarrow> bool" where
  "por_async_reset i = (\<not> rst_n i)"

definition sys_async_reset :: "crg_state \<Rightarrow> instant \<Rightarrow> bool" where
  "sys_async_reset s i = (\<not> locked i \<or> \<not> por_done s)"

definition cd_por_rst :: "crg_state \<Rightarrow> instant \<Rightarrow> bool" where
  "cd_por_rst s i = AsyncResetSynchronizer_rst (por_sync s) (por_async_reset i)"

definition cd_sys_rst :: "crg_state \<Rightarrow> instant \<Rightarrow> bool" where
  "cd_sys_rst s i = AsyncResetSynchronizer_rst (sys_sync s) (sys_async_reset s i)"

text \<open>
  \<^verbatim>\<open>self.sync.por += If(~por_done, por_count.eq(por_count - 1))\<close>.
  \<^verbatim>\<open>cd_por\<close> is a \<^verbatim>\<open>ClockDomain()\<close> with a reset signal (it is not declared
  \<^verbatim>\<open>reset_less\<close>, and the constructor drives its reset), so at an edge of the domain's
  clock with the domain's reset asserted every register of the domain takes its declared
  reset value, here \<^verbatim>\<open>reset=2**16-1\<close>, instead of the value the statement assigns.
  The subtraction is on 16 bits: the value assigned is truncated to the signal's width.
\<close>

definition por_count_next :: "crg_state \<Rightarrow> instant \<Rightarrow> 16 word" where
  "por_count_next s i =
     (if cd_por_rst s i then por_count_reset
      else if \<not> por_done s then por_count s - 1
      else por_count s)"

definition step :: "crg_state \<Rightarrow> instant \<Rightarrow> crg_state" where
  "step s i =
     \<lparr>por_count = (if por_edge i then por_count_next s i else por_count s),
      por_sync = AsyncResetSynchronizer_next (por_sync s) (por_async_reset i) (por_edge i),
      sys_sync = AsyncResetSynchronizer_next (sys_sync s) (sys_async_reset s i) (sys_edge i)\<rparr>"

text \<open>
  A run is the sequence of instants since power-up. At power-up the counter holds its
  reset value; nothing is assumed about the flip-flops of the two synchronizers.
\<close>

definition power_up :: "resetsync \<Rightarrow> resetsync \<Rightarrow> crg_state" where
  "power_up p q = \<lparr>por_count = por_count_reset, por_sync = p, sys_sync = q\<rparr>"

fun run :: "crg_state \<Rightarrow> instant list \<Rightarrow> crg_state" where
  "run s [] = s"
| "run s (i # tr) = run (step s i) tr"

definition por_cycles :: "instant list \<Rightarrow> nat" where
  "por_cycles tr = length (filter por_edge tr)"

text \<open>No edge of the \<^verbatim>\<open>por\<close> clock finds the \<^verbatim>\<open>por\<close> domain in reset.\<close>

fun por_reset_free :: "crg_state \<Rightarrow> instant list \<Rightarrow> bool" where
  "por_reset_free s [] = True"
| "por_reset_free s (i # tr) =
     ((por_edge i \<longrightarrow> \<not> cd_por_rst s i) \<and> por_reset_free (step s i) tr)"


text \<open>Named inputs for the examples: a synchronizer with both flip-flops clear, and three
  instants.\<close>

definition settled :: resetsync where
  "settled = \<lparr>rst1 = False, rst = False\<rparr>"

definition quiet_tick :: instant where
  \<comment> \<open>both clocks tick, \<^verbatim>\<open>gsrn\<close> released, PLL locked\<close>
  "quiet_tick = \<lparr>rst_n = True, locked = True, por_edge = True, sys_edge = True\<rparr>"

definition gsrn_tick :: instant where
  \<comment> \<open>both clocks tick while \<^verbatim>\<open>gsrn\<close> is asserted (low)\<close>
  "gsrn_tick = \<lparr>rst_n = False, locked = True, por_edge = True, sys_edge = True\<rparr>"

definition idle :: instant where
  \<comment> \<open>no clock edge\<close>
  "idle = \<lparr>rst_n = True, locked = True, por_edge = False, sys_edge = False\<rparr>"


section \<open>The constructors: what they hand to the platform and to the SoC core\<close>

text \<open>
  The platform object, the SoC core, the PLL, the memory and the LED chaser are the
  framework's. The constructors of this repository call them; the model keeps what each
  call is given, in call order. Python values that can raise are sums, \<open>Inl\<close> the
  exception.
\<close>

datatype py_error =
  ZeroDivisionError | TypeError | KeyError | ValueError | OverflowError | AssertionError

subsection \<open>Python floats\<close>

text \<open>
  A Python float is an IEEE 754 binary64 number: a real with a 53-bit significand and a
  binary exponent of at least \<open>-1074\<close>, an infinity or a NaN. The result of a division
  and the value of a decimal string are the exact result rounded to the nearest such
  number, ties to the even significand.
\<close>

datatype pyfloat = Finite real | Inf | NegInf | NaN

text \<open>The number of binary digits of \<open>n\<close>.\<close>

fun bitlen :: "nat \<Rightarrow> nat" where
  "bitlen n = (if n = 0 then 0 else Suc (bitlen (n div 2)))"

declare bitlen.simps [simp del]

text \<open>The binary exponent of the positive rational \<open>N / D\<close>: \<open>2\<^sup>e \<le> N / D < 2\<^sup>e\<^sup>+\<^sup>1\<close>.\<close>

definition ilog2 :: "nat \<Rightarrow> nat \<Rightarrow> int" where
  "ilog2 N D =
     (let e = int (bitlen N) - int (bitlen D)
      in if (if 0 \<le> e then D * 2 ^ nat e \<le> N else D \<le> N * 2 ^ nat (- e)) then e else e - 1)"

text \<open>The integer nearest to \<open>a / b\<close>, the even one of two equally near.\<close>

definition round_half_even :: "nat \<Rightarrow> nat \<Rightarrow> nat" where
  "round_half_even a b =
     (let q = a div b; r = a mod b
      in if 2 * r < b then q else if b < 2 * r then q + 1 else if even q then q else q + 1)"

text \<open>
  \<open>N / D\<close> rounded to a multiple of \<open>2\<^sup>t\<close>, where \<open>t\<close> leaves 53 significant bits, and
  fewer below the smallest normal exponent \<open>-1022\<close>.
\<close>

definition round64 :: "nat \<Rightarrow> nat \<Rightarrow> real" where
  "round64 N D =
     (if N = 0 then 0
      else
        (let e = ilog2 N D;
             t = max e (- 1022) - 52
         in if t < 0 then real (round_half_even (N * 2 ^ nat (- t)) D) / 2 ^ nat (- t)
            else real (round_half_even N (D * 2 ^ nat t)) * 2 ^ nat t))"

text \<open>
  The float nearest to \<open>N / D\<close>: an infinity from \<open>2\<^sup>1\<^sup>0\<^sup>2\<^sup>4 - 2\<^sup>9\<^sup>7\<^sup>0\<close> on, halfway between the
  largest float and \<open>2\<^sup>1\<^sup>0\<^sup>2\<^sup>4\<close>.
\<close>

definition binary64 :: "nat \<Rightarrow> nat \<Rightarrow> pyfloat" where
  "binary64 N D = (if D * (2 ^ 1024 - 2 ^ 970) \<le> N then Inf else Finite (round64 N D))"

fun negative :: "pyfloat \<Rightarrow> pyfloat" where
  "negative (Finite x) = Finite (- x)"
| "negative Inf = NegInf"
| "negative NegInf = Inf"
| "negative NaN = NaN"

subsection \<open>Values and the platform\<close>

text \<open>A Python string is the list of its code points.\<close>

type_synonym pystr = "nat list"

definition str :: "string \<Rightarrow> pystr" where
  "str s = map of_char s"

datatype pyval = PyNone | PyBool bool | PyInt int | PyFloat pyfloat | PyStr pystr

type_synonym resource = "string \<times> nat option"  \<comment> \<open>a resource name and its number\<close>

record platform =
  platform_module :: string                      \<comment> \<open>the platforms module that built it\<close>
  commands :: "string list"                      \<comment> \<open>\<^verbatim>\<open>add_platform_command\<close>\<close>
  extensions :: "string list"                    \<comment> \<open>\<^verbatim>\<open>add_extension\<close>\<close>
  requested :: "resource list"                   \<comment> \<open>\<^verbatim>\<open>request\<close>\<close>
  period_constraints :: "(string \<times> real) list"   \<comment> \<open>\<^verbatim>\<open>add_period_constraint\<close>\<close>

definition Platform :: "string \<Rightarrow> platform" where
  "Platform m = \<lparr>platform_module = m, commands = [], extensions = [], requested = [],
     period_constraints = []\<rparr>"

definition add_platform_command :: "platform \<Rightarrow> string \<Rightarrow> platform" where
  "add_platform_command p c = p\<lparr>commands := commands p @ [c]\<rparr>"

definition add_extension :: "platform \<Rightarrow> string \<Rightarrow> platform" where
  "add_extension p e = p\<lparr>extensions := extensions p @ [e]\<rparr>"

definition request :: "platform \<Rightarrow> string \<Rightarrow> nat option \<Rightarrow> platform \<times> resource" where
  "request p name number = (p\<lparr>requested := requested p @ [(name, number)]\<rparr>, (name, number))"

definition add_period_constraint :: "platform \<Rightarrow> string \<Rightarrow> real \<Rightarrow> platform" where
  "add_period_constraint p clk period =
     p\<lparr>period_constraints := period_constraints p @ [(clk, period)]\<rparr>"

definition kB :: nat where
  "kB = 1024"

definition mB :: nat where
  "mB = 1024 * kB"

subsection \<open>\<open>_CRG.__init__\<close>\<close>

text \<open>
  \<^verbatim>\<open>
      def __init__(self, platform, sys_clk_freq):
          self.clock_domains.cd_por = ClockDomain()
          self.clock_domains.cd_sys = ClockDomain()
          self.submodules.hf_clk = NexusOSCA()
          hf_clk_freq = 25e6
          self.hf_clk.create_hf_clk(self.cd_por, hf_clk_freq)
          ...
          self.rst_n = platform.request("gsrn")
          ...
          self.submodules.sys_pll = sys_pll = NEXUSPLL()
          sys_pll.register_clkin(self.cd_por.clk, hf_clk_freq)
          sys_pll.create_clkout(self.cd_sys, sys_clk_freq)
          ...
          platform.add_period_constraint(self.cd_sys.clk, 1e9/sys_clk_freq)
  \<close>
  The clock of a domain is named after the domain: \<open>''sys_clk''\<close> is \<^verbatim>\<open>cd_sys.clk\<close>.

  The framework's PLL checks the frequency it is asked for, before the period
  constraint is reached:
  \<^verbatim>\<open>
      clko_freq_range = (6.25e6, 800e6)
      ...
      def create_clkout(self, cd, freq, phase=0, margin=1e-2):
          (clko_freq_min, clko_freq_max) = self.clko_freq_range
          assert freq >= clko_freq_min
          assert freq <= clko_freq_max
  \<close>
  The division \<^verbatim>\<open>1e9/sys_clk_freq\<close> converts the integer to a float, exactly for an
  integer in that range, and rounds the quotient; it raises \<^verbatim>\<open>ZeroDivisionError\<close> at 0.
\<close>

definition clko_freq_range :: "int \<times> int" where
  "clko_freq_range = (6250000, 800000000)"

record crg =
  clock_domains :: "string list"
  hf_clk :: "string \<times> real"       \<comment> \<open>\<^verbatim>\<open>create_hf_clk(cd, freq)\<close>\<close>
  crg_rst_n :: resource
  pll_clkin :: "string \<times> real"    \<comment> \<open>\<^verbatim>\<open>register_clkin(clk, freq)\<close>\<close>
  pll_clkout :: "string \<times> int"    \<comment> \<open>\<^verbatim>\<open>create_clkout(cd, freq)\<close>\<close>
  por_count_init :: "16 word"

definition CRG_init :: "platform \<Rightarrow> int \<Rightarrow> py_error + (platform \<times> crg)" where
  "CRG_init platform sys_clk_freq =
     (let hf_clk_freq = 25000000;
          (platform, pad) = request platform ''gsrn'' None;
          (clko_freq_min, clko_freq_max) = clko_freq_range
      in if sys_clk_freq < clko_freq_min then Inl AssertionError
         else if clko_freq_max < sys_clk_freq then Inl AssertionError
         else if sys_clk_freq = 0 then Inl ZeroDivisionError
         else Inr (add_period_constraint platform ''sys_clk'' (round64 1000000000 (nat sys_clk_freq)),
                   \<lparr>clock_domains = [''por'', ''sys''],
                    hf_clk = (''por'', hf_clk_freq),
                    crg_rst_n = pad,
                    pll_clkin = (''por_clk'', hf_clk_freq),
                    pll_clkout = (''sys'', sys_clk_freq),
                    por_count_init = por_count_reset\<rparr>))"

subsection \<open>\<open>BaseSoC.__init__\<close>\<close>

text \<open>
  The two targets differ in the platform module and in the name of the memory class.
\<close>

datatype board = Evn | Eval

fun platform_of :: "board \<Rightarrow> string" where
  "platform_of Evn = ''crosslink_nx_evn''"
| "platform_of Eval = ''crosslink_nx_eval''"

fun lram_of :: "board \<Rightarrow> string" where
  "lram_of Evn = ''NXLRAM''"
| "lram_of Eval = ''NexusLRAM''"

datatype submodule =
    Crg crg
  | Lram string nat nat              \<comment> \<open>class, data width, size: \<^verbatim>\<open>NXLRAM(32, size)\<close>\<close>
  | LedChaser "resource list" int    \<comment> \<open>\<^verbatim>\<open>LedChaser(pads, sys_clk_freq)\<close>\<close>

text \<open>
  \<^verbatim>\<open>
      SoCCore.mem_map = {
          "rom":              0x00000000,
          "sram":             0x40000000,
          "csr":              0xf0000000,
      }
  \<close>
\<close>

definition SoCCore_mem_map :: "(string \<times> nat) list" where
  "SoCCore_mem_map = [(''rom'', 0x00000000), (''sram'', 0x40000000), (''csr'', 0xf0000000)]"

record soc =
  soc_platform :: platform
  core_clk_freq :: int                 \<comment> \<open>the arguments of \<^verbatim>\<open>SoCCore.__init__\<close>\<close>
  core_ident :: string
  core_ident_version :: bool
  core_kwargs :: "string \<rightharpoonup> pyval"
  mem_map :: "(string \<times> nat) list"
  submodules :: "(string \<times> submodule) list"
  mem_regions :: "(string \<times> nat \<times> string \<times> nat) list"
      \<comment> \<open>\<^verbatim>\<open>register_mem(name, address, interface, size)\<close>, the interface by its owner\<close>
  csrs :: "string list"                \<comment> \<open>\<^verbatim>\<open>add_csr\<close>\<close>

text \<open>\<^verbatim>\<open>[platform.request(name, i) for i in ...]\<close>\<close>

fun request_each :: "platform \<Rightarrow> string \<Rightarrow> nat list \<Rightarrow> platform \<times> resource list" where
  "request_each p name [] = (p, [])"
| "request_each p name (i # ns) =
     (let (p1, pad) = request p name (Some i);
          (p2, pads) = request_each p1 name ns
      in (p2, pad # pads))"

text \<open>
  \<^verbatim>\<open>
      def __init__(self, sys_clk_freq, **kwargs):
          platform = crosslink_nx_evn.Platform()
          platform.add_platform_command("ldc_set_sysconfig {{MASTER_SPI_PORT=SERIAL}}")
          kwargs["integrated_sram_size"] = 0
          platform.add_extension(crosslink_nx_evn.serial_pmods)
          SoCCore.__init__(self, platform, sys_clk_freq,
              ident          = "LiteX SoC on Crosslink-NX Evaluation Board",
              ident_version  = True,
              **kwargs)
          self.submodules.crg = _CRG(platform, sys_clk_freq)
          size = 128*kB
          self.submodules.spram = NXLRAM(32, size)
          self.register_mem("sram", self.mem_map["sram"], self.spram.bus, size)
          self.submodules.leds = LedChaser(
              pads         = Cat(*[platform.request("user_led", i) for i in range(14)]),
              sys_clk_freq = sys_clk_freq)
          self.add_csr("leds")
  \<close>
  A call that names a keyword and also finds it in \<^verbatim>\<open>**kwargs\<close> raises \<^verbatim>\<open>TypeError\<close>.
  \<^verbatim>\<open>self.mem_map\<close> is read after the framework's \<^verbatim>\<open>SoCCore.__init__\<close> has run, and that
  constructor rewrites the dictionary: \<open>core_mem_map\<close> is what it makes of the
  class-level dictionary. A key missing from a dictionary raises \<^verbatim>\<open>KeyError\<close>.
\<close>

definition BaseSoC_init ::
  "board \<Rightarrow> ((string \<times> nat) list \<Rightarrow> (string \<times> nat) list) \<Rightarrow> int \<Rightarrow> (string \<rightharpoonup> pyval)
    \<Rightarrow> py_error + soc" where
  "BaseSoC_init b core_mem_map sys_clk_freq kwargs =
     (let platform = Platform (platform_of b);
          platform = add_platform_command platform ''ldc_set_sysconfig {{MASTER_SPI_PORT=SERIAL}}'';
          kwargs = kwargs(''integrated_sram_size'' \<mapsto> PyInt 0);
          platform = add_extension platform ''serial_pmods''
      in if ''ident'' \<in> dom kwargs \<or> ''ident_version'' \<in> dom kwargs then Inl TypeError
         else
           (let self = \<lparr>soc_platform = platform,
                       core_clk_freq = sys_clk_freq,
                       core_ident = ''LiteX SoC on Crosslink-NX Evaluation Board'',
                       core_ident_version = True,
                       core_kwargs = kwargs,
                       mem_map = core_mem_map SoCCore_mem_map,
                       submodules = [],
                       mem_regions = [],
                       csrs = []\<rparr>
            in case CRG_init platform sys_clk_freq of
                 Inl e \<Rightarrow> Inl e
               | Inr (platform, c) \<Rightarrow>
                   (let self = self\<lparr>submodules := submodules self @ [(''crg'', Crg c)]\<rparr>;
                        size = 128 * kB;
                        self = self\<lparr>submodules := submodules self @ [(''spram'', Lram (lram_of b) 32 size)]\<rparr>
                    in case map_of (mem_map self) ''sram'' of
                         None \<Rightarrow> Inl KeyError
                       | Some address \<Rightarrow>
                           (let self = self\<lparr>mem_regions := mem_regions self @ [(''sram'', address, ''spram'', size)]\<rparr>;
                                (platform, pads) = request_each platform ''user_led'' [0..<14];
                                self = self\<lparr>submodules := submodules self @ [(''leds'', LedChaser pads sys_clk_freq)]\<rparr>;
                                self = self\<lparr>csrs := csrs self @ [''leds'']\<rparr>
                            in Inr (self\<lparr>soc_platform := platform\<rparr>)))))"

text \<open>
  What the framework's constructor does to the dictionary when the SoC has a CPU: it
  merges the memory map of the CPU class into it, \<^verbatim>\<open>self.mem_map.update(self.cpu.mem_map)\<close>.
  The default CPU is VexRiscv, whose class carries
  \<^verbatim>\<open>
      mem_map = {
          "rom":      0x00000000,
          "sram":     0x10000000,
          "main_ram": 0x40000000,
          "csr":      0xf0000000,
      }
  \<close>
\<close>

fun setitem :: "('k \<times> 'v) list \<Rightarrow> 'k \<Rightarrow> 'v \<Rightarrow> ('k \<times> 'v) list" where
  "setitem [] k v = [(k, v)]"
| "setitem ((k', v') # m) k v = (if k' = k then (k, v) # m else (k', v') # setitem m k v)"

definition dict_update :: "('k \<times> 'v) list \<Rightarrow> ('k \<times> 'v) list \<Rightarrow> ('k \<times> 'v) list" where
  "dict_update other m = foldl (\<lambda>m (k, v). setitem m k v) m other"

definition vexriscv_mem_map :: "(string \<times> nat) list" where
  "vexriscv_mem_map =
     [(''rom'', 0x00000000), (''sram'', 0x10000000), (''main_ram'', 0x40000000),
      (''csr'', 0xf0000000)]"


subsection \<open>\<open>main\<close>: the requested frequency\<close>

text \<open>
  \<^verbatim>\<open>
      parser.add_argument("--sys-clk-freq",  default=75e6, help="System clock frequency (default=75MHz)")
      ...
      args = parser.parse_args()
      soc = BaseSoC(int(float(args.sys_clk_freq)), **soc_core_argdict(args))
  \<close>
  The argument has no \<^verbatim>\<open>type\<close>: \<^verbatim>\<open>args.sys_clk_freq\<close> is the string of the command line
  when the flag is given and the float \<^verbatim>\<open>75e6\<close> when it is not.
\<close>

definition args_sys_clk_freq :: "pystr option \<Rightarrow> pyval" where
  "args_sys_clk_freq flag = (case flag of None \<Rightarrow> PyFloat (Finite 75000000) | Some v \<Rightarrow> PyStr v)"

text \<open>
  The built-in \<^verbatim>\<open>float\<close> on a string, as the interpreter computes it. First every code
  point from 127 on is replaced: white space by a blank, a decimal digit of any script
  by the ASCII digit of its value, and at the first other one the string ends in a
  question mark. An all-ASCII string is left as it is. \<open>todecimal\<close> is the table of the
  decimal digits of the Unicode database, which is not part of this development.
\<close>

definition Py_UNICODE_ISSPACE :: "nat \<Rightarrow> bool" where
  "Py_UNICODE_ISSPACE ch =
     (ch \<in> set [0x09, 0x0A, 0x0B, 0x0C, 0x0D, 0x1C, 0x1D, 0x1E, 0x1F, 0x20, 0x85, 0xA0, 0x1680,
                0x2000, 0x2001, 0x2002, 0x2003, 0x2004, 0x2005, 0x2006, 0x2007, 0x2008, 0x2009,
                0x200A, 0x2028, 0x2029, 0x202F, 0x205F, 0x3000])"

definition Py_ISSPACE :: "nat \<Rightarrow> bool" where
  "Py_ISSPACE c = (c \<in> set [0x09, 0x0A, 0x0B, 0x0C, 0x0D, 0x20])"

definition is_digit :: "nat \<Rightarrow> bool" where
  "is_digit c = (0x30 \<le> c \<and> c \<le> 0x39)"

fun transform :: "(nat \<Rightarrow> nat option) \<Rightarrow> pystr \<Rightarrow> pystr" where
  "transform todecimal [] = []"
| "transform todecimal (ch # s) =
     (if ch < 127 then ch # transform todecimal s
      else if Py_UNICODE_ISSPACE ch then 0x20 # transform todecimal s
      else (case todecimal ch of
              None \<Rightarrow> [0x3F]
            | Some d \<Rightarrow> (0x30 + d) # transform todecimal s))"

definition TransformDecimalAndSpaceToASCII :: "(nat \<Rightarrow> nat option) \<Rightarrow> pystr \<Rightarrow> pystr" where
  "TransformDecimalAndSpaceToASCII todecimal s =
     (if list_all (\<lambda>ch. ch < 128) s then s else transform todecimal s)"

text \<open>
  An underscore may stand only between two digits; \<open>prev\<close> is the character before, 0 at
  the start.
\<close>

fun underscores_ok :: "nat \<Rightarrow> pystr \<Rightarrow> bool" where
  "underscores_ok prev [] = (prev \<noteq> 0x5F)"
| "underscores_ok prev (c # s) =
     ((if c = 0x5F then is_digit prev else if prev = 0x5F then is_digit c else True) \<and>
      underscores_ok c s)"

definition sign :: "pystr \<Rightarrow> bool \<times> pystr" where
  "sign s =
     (case s of
        [] \<Rightarrow> (False, [])
      | c # cs \<Rightarrow> if c = 0x2D then (True, cs) else if c = 0x2B then (False, cs) else (False, s))"

text \<open>The longest run of digits at the start, by value, and the rest of the string.\<close>

fun digits :: "pystr \<Rightarrow> nat list \<times> pystr" where
  "digits [] = ([], [])"
| "digits (c # s) =
     (if is_digit c then (let (ds, r) = digits s in ((c - 0x30) # ds, r)) else ([], c # s))"

definition decimal :: "nat list \<Rightarrow> nat" where
  "decimal ds = foldl (\<lambda>a d. 10 * a + d) 0 ds"

text \<open>
  The exponent and what follows it. An \<^verbatim>\<open>e\<close> that no digit follows is not part of the
  number.
\<close>

definition exponent :: "pystr \<Rightarrow> int \<times> pystr" where
  "exponent s =
     (case s of
        [] \<Rightarrow> (0, [])
      | c # cs \<Rightarrow>
          if c = 0x65 \<or> c = 0x45 then
            (let (neg, r) = sign cs; (ds, rest) = digits r
             in if ds = [] then (0, s)
                else (if neg then - int (decimal ds) else int (decimal ds), rest))
          else (0, s))"

definition lower :: "pystr \<Rightarrow> pystr" where
  "lower s = map (\<lambda>c. if 0x41 \<le> c \<and> c \<le> 0x5A then c + 0x20 else c) s"

text \<open>
  The number at the start of the string and the rest of the string: a sign, digits with
  an optional point, an optional exponent; \<open>None\<close> when there is no digit.
\<close>

definition dg_strtod :: "pystr \<Rightarrow> (pyfloat \<times> pystr) option" where
  "dg_strtod s =
     (let (neg, u) = sign s;
          (ip, r) = digits u;
          (fp, r) = (case r of
                       [] \<Rightarrow> ([], r)
                     | c # cs \<Rightarrow> if c = 0x2E then digits cs else ([], r))
      in if ip = [] \<and> fp = [] then None
         else
           (let (e, rest) = exponent r;
                m = decimal (ip @ fp);
                k = e - int (length fp);
                x = (if 0 \<le> k then binary64 (m * 10 ^ nat k) 1 else binary64 m (10 ^ nat (- k)))
            in Some (if neg then negative x else x, rest)))"

text \<open>Otherwise a sign and \<^verbatim>\<open>inf\<close>, \<^verbatim>\<open>infinity\<close> or \<^verbatim>\<open>nan\<close>, in any case.\<close>

definition parse_inf_or_nan :: "pystr \<Rightarrow> (pyfloat \<times> pystr) option" where
  "parse_inf_or_nan p =
     (let (negate, s) = sign p
      in if lower (take 3 s) = str ''inf'' then
           Some (if negate then NegInf else Inf,
                 if lower (take 5 (drop 3 s)) = str ''inity'' then drop 8 s else drop 3 s)
         else if lower (take 3 s) = str ''nan'' then Some (NaN, drop 3 s)
         else None)"

definition string_to_double :: "pystr \<Rightarrow> (pyfloat \<times> pystr) option" where
  "string_to_double s = (case dg_strtod s of None \<Rightarrow> parse_inf_or_nan s | Some r \<Rightarrow> Some r)"

text \<open>
  White space at both ends is dropped, and the number has to be the whole of what is
  left: anything else raises \<^verbatim>\<open>ValueError\<close>.
\<close>

definition float_from_string_inner :: "pystr \<Rightarrow> py_error + pyfloat" where
  "float_from_string_inner s =
     (let s = dropWhile Py_ISSPACE s
      in if s = [] then Inl ValueError
         else
           (let s = rev (dropWhile Py_ISSPACE (rev s))
            in case string_to_double s of
                 None \<Rightarrow> Inl ValueError
               | Some (x, rest) \<Rightarrow> if rest = [] then Inr x else Inl ValueError))"

definition float_of_string :: "(nat \<Rightarrow> nat option) \<Rightarrow> pystr \<Rightarrow> py_error + pyfloat" where
  "float_of_string todecimal v =
     (let s = TransformDecimalAndSpaceToASCII todecimal v
      in if 0x5F \<notin> set s then float_from_string_inner s
         else if underscores_ok 0 s then float_from_string_inner (filter (\<lambda>c. c \<noteq> 0x5F) s)
         else Inl ValueError)"

text \<open>The built-in \<^verbatim>\<open>float\<close> on the values \<^verbatim>\<open>args.sys_clk_freq\<close> can hold.\<close>

fun py_float :: "(nat \<Rightarrow> nat option) \<Rightarrow> pyval \<Rightarrow> py_error + pyfloat" where
  "py_float todecimal (PyFloat x) = Inr x"
| "py_float todecimal (PyStr s) = float_of_string todecimal s"
| "py_float todecimal (PyInt n) =
     (case binary64 (nat \<bar>n\<bar>) 1 of
        Finite x \<Rightarrow> Inr (Finite (if n < 0 then - x else x))
      | _ \<Rightarrow> Inl OverflowError)"
| "py_float todecimal (PyBool b) = Inr (Finite (if b then 1 else 0))"
| "py_float todecimal PyNone = Inl TypeError"

text \<open>
  The built-in \<^verbatim>\<open>int\<close> on a float drops the fraction; it raises \<^verbatim>\<open>OverflowError\<close> on an
  infinity and \<^verbatim>\<open>ValueError\<close> on a NaN.
\<close>

fun py_int :: "pyfloat \<Rightarrow> py_error + int" where
  "py_int (Finite x) = Inr (if 0 \<le> x then \<lfloor>x\<rfloor> else \<lceil>x\<rceil>)"
| "py_int Inf = Inl OverflowError"
| "py_int NegInf = Inl OverflowError"
| "py_int NaN = Inl ValueError"

text \<open>
  \<open>main\<close> up to the construction of the SoC: \<open>flag\<close> is the value of
  \<^verbatim>\<open>--sys-clk-freq\<close> when given, \<open>kwargs\<close> is \<^verbatim>\<open>soc_core_argdict(args)\<close>.
\<close>

definition main_soc ::
  "(nat \<Rightarrow> nat option) \<Rightarrow> board \<Rightarrow> ((string \<times> nat) list \<Rightarrow> (string \<times> nat) list) \<Rightarrow> pystr option
    \<Rightarrow> (string \<rightharpoonup> pyval) \<Rightarrow> py_error + soc" where
  "main_soc todecimal b core_mem_map flag kwargs =
     (case py_float todecimal (args_sys_clk_freq flag) of
        Inl e \<Rightarrow> Inl e
      | Inr x \<Rightarrow>
          (case py_int x of
             Inl e \<Rightarrow> Inl e
           | Inr sys_clk_freq \<Rightarrow> BaseSoC_init b core_mem_map sys_clk_freq kwargs))"


section \<open>Properties of the clock/reset generator\<close>

subsection \<open>Auxiliary facts about the counter and the synchronizers\<close>

lemma por_count_reset_eq: "por_count_reset = 65535"
  by (simp add: por_count_reset_def)

lemma unat_por_count_reset: "unat por_count_reset = 65535"
  by (simp add: por_count_reset_def)

lemma unat_le_reset: "unat (w :: 16 word) \<le> 65535"
  using unsigned_less [of w, where ?'a = nat] by simp

lemma unat_dec: "(w :: 16 word) \<noteq> 0 \<Longrightarrow> unat (w - 1) = unat w - 1"
  by (simp add: unat_minus_one)

lemma step_count_lower: "unat (por_count s) \<le> unat (por_count (step s i)) + (if por_edge i then 1 else 0)"
proof (cases "por_edge i")
  case False
  then show ?thesis by (simp add: step_def)
next
  case True
  show ?thesis
  proof (cases "cd_por_rst s i")
    case True
    with \<open>por_edge i\<close> show ?thesis
      using unat_le_reset [of "por_count s"]
      by (simp add: step_def por_count_next_def unat_por_count_reset)
  next
    case False
    with \<open>por_edge i\<close> show ?thesis
      by (cases "por_count s = 0") (simp_all add: step_def por_count_next_def por_done_def unat_dec)
  qed
qed

lemma run_count_lower: "unat (por_count s) \<le> unat (por_count (run s tr)) + por_cycles tr"
proof (induction tr arbitrary: s)
  case Nil
  then show ?case by (simp add: por_cycles_def)
next
  case (Cons i tr)
  have "unat (por_count s) \<le> unat (por_count (step s i)) + (if por_edge i then 1 else 0)"
    by (rule step_count_lower)
  also have "unat (por_count (step s i)) \<le> unat (por_count (run (step s i) tr)) + por_cycles tr"
    by (rule Cons.IH)
  finally show ?case by (simp add: por_cycles_def split: if_splits)
qed

lemma run_append: "run s (tr @ tr') = run (run s tr) tr'"
  by (induction tr arbitrary: s) simp_all

lemma count_down:
  "por_sync s = \<lparr>rst1 = False, rst = False\<rparr> \<Longrightarrow> n \<le> unat (por_count s) \<Longrightarrow>
   por_count (run s (replicate n quiet_tick)) = por_count s - of_nat n \<and>
   por_sync (run s (replicate n quiet_tick)) = \<lparr>rst1 = False, rst = False\<rparr> \<and>
   (0 < n \<longrightarrow> sys_sync (run s (replicate n quiet_tick)) = \<lparr>rst1 = True, rst = True\<rparr>)"
proof (induction n arbitrary: s)
  case 0
  then show ?case by simp
next
  case (Suc n)
  let ?t = "step s quiet_tick"
  from Suc.prems have nz: "por_count s \<noteq> 0" by auto
  have c: "por_count ?t = por_count s - 1"
    using nz Suc.prems(1)
    by (simp add: step_def por_count_next_def por_done_def cd_por_rst_def quiet_tick_def
        AsyncResetSynchronizer_rst_def por_async_reset_def)
  have p: "por_sync ?t = \<lparr>rst1 = False, rst = False\<rparr>"
    using Suc.prems(1)
    by (simp add: step_def quiet_tick_def AsyncResetSynchronizer_next_def por_async_reset_def)
  have q: "sys_sync ?t = \<lparr>rst1 = True, rst = True\<rparr>"
    using nz
    by (simp add: step_def quiet_tick_def AsyncResetSynchronizer_next_def sys_async_reset_def
        por_done_def)
  have le: "n \<le> unat (por_count ?t)"
    using Suc.prems(2) nz by (simp add: c unat_dec)
  note ih = Suc.IH [OF p le]
  show ?case
  proof (cases n)
    case 0
    then show ?thesis using c p q by simp
  next
    case (Suc m)
    then show ?thesis using ih c by simp
  qed
qed

lemma counted_down:
  "run (power_up \<lparr>rst1 = False, rst = False\<rparr> q) (replicate 65535 quiet_tick) =
     \<lparr>por_count = 0, por_sync = \<lparr>rst1 = False, rst = False\<rparr>,
      sys_sync = \<lparr>rst1 = True, rst = True\<rparr>\<rparr>"
  using count_down [of "power_up \<lparr>rst1 = False, rst = False\<rparr> q" 65535]
  by (simp add: power_up_def por_count_reset_def)

lemma released:
  "run (power_up \<lparr>rst1 = False, rst = False\<rparr> q) (replicate 65535 quiet_tick @ [quiet_tick, quiet_tick]) =
     \<lparr>por_count = 0, por_sync = \<lparr>rst1 = False, rst = False\<rparr>,
      sys_sync = \<lparr>rst1 = False, rst = False\<rparr>\<rparr>"
  unfolding run_append counted_down
  by (simp add: step_def quiet_tick_def por_count_next_def por_done_def
      cd_por_rst_def AsyncResetSynchronizer_rst_def AsyncResetSynchronizer_next_def
      por_async_reset_def sys_async_reset_def)

lemma step_count_upper:
  "por_edge i \<longrightarrow> \<not> cd_por_rst s i \<Longrightarrow> unat (por_count (step s i)) \<le> unat (por_count s)"
  by (cases "por_count s = 0") (simp_all add: step_def por_count_next_def por_done_def unat_dec)

lemma run_count_upper:
  "por_reset_free s tr \<Longrightarrow> unat (por_count (run s tr)) \<le> unat (por_count s)"
proof (induction tr arbitrary: s)
  case Nil
  then show ?case by simp
next
  case (Cons i tr)
  then have "unat (por_count (run (step s i) tr)) \<le> unat (por_count (step s i))" by simp
  also have "\<dots> \<le> unat (por_count s)"
    using Cons.prems by (intro step_count_upper) simp
  finally show ?case by simp
qed

lemma run_stays_zero:
  "por_reset_free s tr \<Longrightarrow> por_count s = 0 \<Longrightarrow> por_count (run s tr) = 0"
  using run_count_upper [of s tr] by (simp add: unat_eq_0)

lemma sync_settles:
  "list_all rst_n tr \<Longrightarrow>
   (1 \<le> por_cycles tr \<longrightarrow> \<not> rst1 (por_sync (run s tr))) \<and>
   (2 \<le> por_cycles tr \<longrightarrow> \<not> rst (por_sync (run s tr))) \<and>
   (\<not> rst1 (por_sync s) \<longrightarrow> \<not> rst1 (por_sync (run s tr))) \<and>
   (\<not> rst1 (por_sync s) \<longrightarrow> 1 \<le> por_cycles tr \<longrightarrow> \<not> rst (por_sync (run s tr))) \<and>
   (\<not> rst1 (por_sync s) \<longrightarrow> \<not> rst (por_sync s) \<longrightarrow> \<not> rst (por_sync (run s tr)))"
proof (induction tr arbitrary: s)
  case Nil
  then show ?case by (simp add: por_cycles_def)
next
  case (Cons i tr)
  then have r: "rst_n i" and l: "list_all rst_n tr" by simp_all
  note ih = Cons.IH [OF l, of "step s i"]
  have s1: "por_edge i \<Longrightarrow> \<not> rst1 (por_sync (step s i))"
    using r by (simp add: step_def AsyncResetSynchronizer_next_def por_async_reset_def)
  have s2: "por_edge i \<Longrightarrow> rst (por_sync (step s i)) = rst1 (por_sync s)"
    using r by (simp add: step_def AsyncResetSynchronizer_next_def por_async_reset_def)
  have s3: "\<not> por_edge i \<Longrightarrow> por_sync (step s i) = por_sync s"
    using r by (simp add: step_def AsyncResetSynchronizer_next_def por_async_reset_def)
  show ?case
  proof (cases "por_edge i")
    case True
    then show ?thesis using ih s1 s2 by (auto simp: por_cycles_def)
  next
    case False
    then show ?thesis using ih s3 by (auto simp: por_cycles_def)
  qed
qed

lemmas crg_defs = step_def por_count_next_def por_done_def cd_por_rst_def cd_sys_rst_def
  AsyncResetSynchronizer_rst_def AsyncResetSynchronizer_next_def por_async_reset_def
  sys_async_reset_def power_up_def por_count_reset_def

lemma quiet_reset_free:
  "por_sync s = \<lparr>rst1 = False, rst = False\<rparr> \<Longrightarrow> por_reset_free s (replicate n quiet_tick)"
proof (induction n arbitrary: s)
  case 0
  then show ?case by simp
next
  case (Suc n)
  have "por_sync (step s quiet_tick) = \<lparr>rst1 = False, rst = False\<rparr>"
    using Suc.prems by (simp add: crg_defs quiet_tick_def)
  then have "por_reset_free (step s quiet_tick) (replicate n quiet_tick)"
    by (rule Suc.IH)
  moreover have "\<not> cd_por_rst s quiet_tick"
    using Suc.prems by (simp add: crg_defs quiet_tick_def)
  ultimately show ?case by simp
qed


subsection \<open>Reset of the \<open>sys\<close> domain\<close>

text \<open>
  Claim C1. In every state a run reaches, from power-up or from any other state, the
  reset of the \<open>sys\<close> domain is asserted whenever the PLL is not locked or the
  power-on counter is not done; equivalently, it can be de-asserted only where the counter
  is done and the PLL is locked. The requested \<^verbatim>\<open>sys_clk_freq\<close> does not occur in the
  logic: it reaches only the PLL's output setting and the period constraint.
\<close>

theorem sys_reset_gated:
  "(\<not> locked i \<or> \<not> por_done (run s tr) \<longrightarrow> cd_sys_rst (run s tr) i) \<and>
   (\<not> cd_sys_rst (run s tr) i \<longrightarrow> por_done (run s tr) \<and> locked i)"
  by (auto simp: cd_sys_rst_def sys_async_reset_def AsyncResetSynchronizer_rst_def)


text \<open>
  Both cases occur: one instant after power-up the counter is not done and the reset is
  asserted; 65537 quiet instants after power-up the reset is released, the counter done
  and the PLL locked.
\<close>

theorem sys_reset_gated_witness:
  "\<not> por_done (run (power_up settled settled) [quiet_tick]) \<and>
   cd_sys_rst (run (power_up settled settled) [quiet_tick]) quiet_tick \<and>
   \<not> cd_sys_rst (run (power_up settled settled) (replicate 65535 quiet_tick @ [quiet_tick, quiet_tick])) quiet_tick \<and>
   por_done (run (power_up settled settled) (replicate 65535 quiet_tick @ [quiet_tick, quiet_tick])) \<and>
   locked quiet_tick"
proof -
  have a: "\<not> por_done (run (power_up settled settled) [quiet_tick])"
    by (simp add: crg_defs settled_def quiet_tick_def)
  have b: "\<not> cd_sys_rst (run (power_up settled settled) (replicate 65535 quiet_tick @ [quiet_tick, quiet_tick])) quiet_tick"
    unfolding settled_def released
    by (simp add: crg_defs quiet_tick_def)
  show ?thesis
    using a b
      sys_reset_gated [of quiet_tick "power_up settled settled" "[quiet_tick]"]
      sys_reset_gated [of quiet_tick "power_up settled settled" "replicate 65535 quiet_tick @ [quiet_tick, quiet_tick]"]
    by blast
qed


text \<open>
  Claim C2. From power-up, whatever the inputs and whatever the synchronizers hold, the
  reset of the \<open>sys\<close> domain is asserted in every state reached by fewer than 65535
  cycles of the \<open>por\<close> clock.
\<close>

theorem sys_reset_min: "por_cycles tr < 65535 \<Longrightarrow> cd_sys_rst (run (power_up p q) tr) i"
proof -
  assume a: "por_cycles tr < 65535"
  have "unat (por_count (power_up p q)) \<le> unat (por_count (run (power_up p q) tr)) + por_cycles tr"
    by (rule run_count_lower)
  then have "0 < unat (por_count (run (power_up p q) tr))"
    using a by (simp add: power_up_def unat_por_count_reset)
  then have "por_count (run (power_up p q) tr) \<noteq> 0" by auto
  then show ?thesis
    by (simp add: cd_sys_rst_def sys_async_reset_def por_done_def AsyncResetSynchronizer_rst_def)
qed


text \<open>An instance: three \<open>por\<close> cycles after power-up, one of them with \<^verbatim>\<open>gsrn\<close> asserted.\<close>

theorem sys_reset_min_witness:
  "por_cycles [quiet_tick, gsrn_tick, quiet_tick] < 65535 \<and>
   cd_sys_rst (run (power_up settled settled) [quiet_tick, gsrn_tick, quiet_tick]) quiet_tick"
proof -
  have a: "por_cycles [quiet_tick, gsrn_tick, quiet_tick] < 65535"
    by (simp add: por_cycles_def quiet_tick_def gsrn_tick_def)
  show ?thesis using a sys_reset_min [OF a] by blast
qed


subsection \<open>The power-on counter\<close>

text \<open>
  Against claim C3 as stated (the counter decreases by one on every \<open>por\<close> clock edge
  while it is nonzero): at an edge of the \<open>por\<close> clock with \<^verbatim>\<open>gsrn\<close> asserted the counter,
  nonzero, is reloaded with 65535 and does not decrease.
\<close>

theorem por_count_reload_counterexample:
  "por_edge gsrn_tick \<and> por_count (power_up settled settled) \<noteq> 0 \<and>
   por_count (step (power_up settled settled) gsrn_tick) \<noteq> por_count (power_up settled settled) - 1 \<and>
   por_count (step (power_up settled settled) gsrn_tick) = 65535"
  by (simp add: crg_defs settled_def gsrn_tick_def)


text \<open>
  Claim C3, amended. The counter is a 16-bit register that holds 65535 at power-up. At
  an edge of the \<open>por\<close> clock that finds the \<open>por\<close> domain out of reset it decreases by
  exactly one while it is nonzero and stays zero once it is zero; at an edge that finds
  the domain in reset it is reloaded with 65535; without an edge it keeps its value. Once
  zero it stays zero for as long as no edge finds the domain in reset. The done flag is
  true exactly when the counter is zero.
\<close>

theorem por_counter_behaviour:
  "por_count (power_up p q) = 65535 \<and>
   (por_edge i \<and> \<not> cd_por_rst s i \<and> por_count s \<noteq> 0 \<longrightarrow>
      por_count (step s i) = por_count s - 1 \<and> unat (por_count (step s i)) + 1 = unat (por_count s)) \<and>
   (por_edge i \<and> \<not> cd_por_rst s i \<and> por_count s = 0 \<longrightarrow> por_count (step s i) = 0) \<and>
   (por_edge i \<and> cd_por_rst s i \<longrightarrow> por_count (step s i) = 65535) \<and>
   (\<not> por_edge i \<longrightarrow> por_count (step s i) = por_count s) \<and>
   (por_count s = 0 \<and> por_reset_free s tr \<longrightarrow> por_count (run s tr) = 0) \<and>
   (por_done s \<longleftrightarrow> por_count s = 0)"
proof -
  have "unat (por_count s - 1) + 1 = unat (por_count s)" if "por_count s \<noteq> 0"
  proof -
    from that have "unat (por_count s) \<noteq> 0" by (simp add: unat_eq_0)
    with that show ?thesis by (simp add: unat_dec)
  qed
  then show ?thesis
    by (auto simp: step_def por_count_next_def por_done_def power_up_def por_count_reset_def
        run_stays_zero)
qed


text \<open>Each case of the amended claim C3 at a concrete state and instant.\<close>

theorem por_counter_behaviour_witness:
  "por_count (power_up settled settled) = 65535 \<and>
   unat (por_count (step (power_up settled settled) quiet_tick)) + 1 =
     unat (por_count (power_up settled settled)) \<and>
   por_count (step (run (power_up settled settled) (replicate 65535 quiet_tick)) quiet_tick) = 0 \<and>
   por_count (step (power_up settled settled) gsrn_tick) = 65535 \<and>
   por_count (step (power_up settled settled) idle) = por_count (power_up settled settled) \<and>
   por_count (run (run (power_up settled settled) (replicate 65535 quiet_tick))
     [quiet_tick, quiet_tick]) = 0 \<and>
   por_done (run (power_up settled settled) (replicate 65535 quiet_tick))"
proof -
  define s0 where "s0 = power_up settled settled"
  define sz where "sz = run s0 (replicate 65535 quiet_tick)"
  have z: "sz = \<lparr>por_count = 0, por_sync = \<lparr>rst1 = False, rst = False\<rparr>,
      sys_sync = \<lparr>rst1 = True, rst = True\<rparr>\<rparr>"
    unfolding sz_def s0_def settled_def by (rule counted_down)
  have h1: "por_edge quiet_tick \<and> \<not> cd_por_rst s0 quiet_tick \<and> por_count s0 \<noteq> 0"
    by (simp add: s0_def crg_defs settled_def quiet_tick_def)
  have h2: "por_edge quiet_tick \<and> \<not> cd_por_rst sz quiet_tick \<and> por_count sz = 0"
    unfolding z by (simp add: crg_defs quiet_tick_def)
  have h3: "por_edge gsrn_tick \<and> cd_por_rst s0 gsrn_tick"
    by (simp add: s0_def crg_defs settled_def gsrn_tick_def)
  have h4: "\<not> por_edge idle"
    by (simp add: idle_def)
  have h5: "por_count sz = 0 \<and> por_reset_free sz [quiet_tick, quiet_tick]"
    unfolding z by (simp add: crg_defs quiet_tick_def)
  have "por_count s0 = 65535 \<and>
    unat (por_count (step s0 quiet_tick)) + 1 = unat (por_count s0) \<and>
    por_count (step sz quiet_tick) = 0 \<and>
    por_count (step s0 gsrn_tick) = 65535 \<and>
    por_count (step s0 idle) = por_count s0 \<and>
    por_count (run sz [quiet_tick, quiet_tick]) = 0 \<and>
    por_done sz"
    using h1 h2 h3 h4 h5
      por_counter_behaviour [of settled settled quiet_tick s0 "[]"]
      por_counter_behaviour [of settled settled quiet_tick sz "[quiet_tick, quiet_tick]"]
      por_counter_behaviour [of settled settled gsrn_tick s0 "[]"]
      por_counter_behaviour [of settled settled idle s0 "[]"]
    unfolding s0_def [symmetric]
    by simp
  then show ?thesis unfolding s0_def sz_def .
qed


text \<open>
  Against claim C4 as stated (the counter never goes from zero to a nonzero value during
  a run): 65535 quiet instants after power-up the counter is zero, and one more instant
  with \<^verbatim>\<open>gsrn\<close> asserted brings it back to 65535.
\<close>

theorem por_count_rearm_counterexample:
  "por_count (run (power_up settled settled) (replicate 65535 quiet_tick)) = 0 \<and>
   por_count (run (power_up settled settled) (replicate 65535 quiet_tick @ [gsrn_tick])) = 65535"
  unfolding run_append settled_def counted_down
  by (simp add: crg_defs gsrn_tick_def)


text \<open>
  Claim C4, amended. Over any sequence of instants in which no edge of the \<open>por\<close> clock
  finds the \<open>por\<close> domain in reset, the counter never increases, so it neither wraps
  from 0 to 65535 nor leaves zero; the counter leaves zero only at an edge of the
  \<open>por\<close> clock that finds the \<open>por\<close> domain in reset, and then it holds 65535.
\<close>

theorem por_counter_no_wrap:
  "(por_reset_free s tr \<longrightarrow> unat (por_count (run s tr)) \<le> unat (por_count s)) \<and>
   (por_reset_free s tr \<and> por_count s = 0 \<longrightarrow> por_count (run s tr) = 0) \<and>
   (por_count s = 0 \<and> por_count (step s i) \<noteq> 0 \<longrightarrow>
      por_edge i \<and> cd_por_rst s i \<and> por_count (step s i) = 65535)"
  by (auto simp: run_count_upper run_stays_zero step_def por_count_next_def por_done_def
      por_count_reset_def split: if_splits)


text \<open>
  Instances: a reset-free run of 65537 instants from power-up; the counter staying zero;
  and the reload of a zero counter by \<^verbatim>\<open>gsrn\<close>.
\<close>

theorem por_counter_no_wrap_witness:
  "por_reset_free (power_up settled settled) (replicate 65537 quiet_tick) \<and>
   unat (por_count (run (power_up settled settled) (replicate 65537 quiet_tick)))
     \<le> unat (por_count (power_up settled settled)) \<and>
   por_count (run (run (power_up settled settled) (replicate 65535 quiet_tick)) [quiet_tick, quiet_tick]) = 0 \<and>
   por_edge gsrn_tick \<and>
   cd_por_rst (run (power_up settled settled) (replicate 65535 quiet_tick)) gsrn_tick \<and>
   por_count (step (run (power_up settled settled) (replicate 65535 quiet_tick)) gsrn_tick) = 65535"
proof -
  define s0 where "s0 = power_up settled settled"
  define sz where "sz = run s0 (replicate 65535 quiet_tick)"
  define tr where "tr = replicate 65537 quiet_tick"
  have z: "sz = \<lparr>por_count = 0, por_sync = \<lparr>rst1 = False, rst = False\<rparr>,
      sys_sync = \<lparr>rst1 = True, rst = True\<rparr>\<rparr>"
    unfolding sz_def s0_def settled_def by (rule counted_down)
  have h1: "por_reset_free s0 tr"
    unfolding tr_def by (rule quiet_reset_free) (simp add: s0_def power_up_def settled_def)
  have h2: "por_reset_free sz [quiet_tick, quiet_tick] \<and> por_count sz = 0"
    unfolding z by (simp add: crg_defs quiet_tick_def)
  have h3: "por_count sz = 0 \<and> por_count (step sz gsrn_tick) \<noteq> 0"
    unfolding z by (simp add: crg_defs gsrn_tick_def)
  have "por_reset_free s0 tr \<and> unat (por_count (run s0 tr)) \<le> unat (por_count s0) \<and>
    por_count (run sz [quiet_tick, quiet_tick]) = 0 \<and>
    por_edge gsrn_tick \<and> cd_por_rst sz gsrn_tick \<and> por_count (step sz gsrn_tick) = 65535"
    using h1 h2 h3
      por_counter_no_wrap [of s0 tr gsrn_tick]
      por_counter_no_wrap [of sz "[quiet_tick, quiet_tick]" gsrn_tick]
    by simp
  then show ?thesis unfolding s0_def sz_def tr_def .
qed


text \<open>
  The release of a reset synchronizer takes two clock edges: with both flip-flops set, the
  output is still set after fewer than two edges.
\<close>

lemma sync_lingers:
  "(rst1 (por_sync s) \<and> rst (por_sync s) \<longrightarrow> por_cycles tr < 2 \<longrightarrow> rst (por_sync (run s tr))) \<and>
   (rst (por_sync s) \<longrightarrow> por_cycles tr = 0 \<longrightarrow> rst (por_sync (run s tr)))"
proof (induction tr arbitrary: s)
  case Nil
  then show ?case by simp
next
  case (Cons i tr)
  note ih = Cons.IH [of "step s i"]
  show ?case
  proof (cases "rst_n i")
    case False
    then have "por_sync (step s i) = \<lparr>rst1 = True, rst = True\<rparr>"
      by (simp add: step_def AsyncResetSynchronizer_next_def por_async_reset_def)
    with ih show ?thesis by (auto simp: por_cycles_def split: if_splits)
  next
    case True
    show ?thesis
    proof (cases "por_edge i")
      case True
      with \<open>rst_n i\<close> have "rst (por_sync (step s i)) = rst1 (por_sync s)"
        by (simp add: step_def AsyncResetSynchronizer_next_def por_async_reset_def)
      with ih True show ?thesis by (auto simp: por_cycles_def)
    next
      case False
      with \<open>rst_n i\<close> have "por_sync (step s i) = por_sync s"
        by (simp add: step_def AsyncResetSynchronizer_next_def por_async_reset_def)
      with ih False show ?thesis by (auto simp: por_cycles_def)
    qed
  qed
qed

lemma por_reset_held:
  assumes "\<not> rst_n i0" and "por_cycles tr < 2"
  shows "cd_por_rst (run (step s i0) tr) i"
proof -
  have "por_sync (step s i0) = \<lparr>rst1 = True, rst = True\<rparr>"
    using assms(1) by (simp add: step_def AsyncResetSynchronizer_next_def por_async_reset_def)
  then have "rst (por_sync (run (step s i0) tr))"
    using sync_lingers [of "step s i0" tr] assms(2) by simp
  then show ?thesis
    by (simp add: cd_por_rst_def AsyncResetSynchronizer_rst_def)
qed


subsection \<open>Reset of the \<open>por\<close> domain\<close>

text \<open>
  Against claim C7 as stated (the reset of the \<open>por\<close> domain equals the inverted
  \<^verbatim>\<open>gsrn\<close> in every state): one instant after \<^verbatim>\<open>gsrn\<close> was asserted, with \<^verbatim>\<open>gsrn\<close>
  released, the domain is still in reset.
\<close>

theorem por_reset_lingers_counterexample:
  "rst_n quiet_tick \<and> cd_por_rst (run (power_up settled settled) [gsrn_tick]) quiet_tick"
  by (simp add: crg_defs settled_def quiet_tick_def gsrn_tick_def)


text \<open>
  Claim C7, amended. The reset request given to the synchronizer of the \<open>por\<close> domain
  is the inverted \<^verbatim>\<open>gsrn\<close>; the domain is in reset whenever \<^verbatim>\<open>gsrn\<close> is asserted; after an
  instant with \<^verbatim>\<open>gsrn\<close> asserted the domain stays in reset, whatever \<^verbatim>\<open>gsrn\<close> does, until
  the \<open>por\<close> clock has had two edges; and once \<^verbatim>\<open>gsrn\<close> has stayed released over two
  edges of the \<open>por\<close> clock, the reset of the domain equals the inverted \<^verbatim>\<open>gsrn\<close>.
\<close>

theorem por_reset_follows_gsrn:
  "por_async_reset i = (\<not> rst_n i) \<and>
   (\<not> rst_n i \<longrightarrow> cd_por_rst s i) \<and>
   (\<not> rst_n i0 \<and> por_cycles tr < 2 \<longrightarrow> cd_por_rst (run (step s i0) tr) i) \<and>
   (list_all rst_n tr \<and> 2 \<le> por_cycles tr \<longrightarrow> cd_por_rst (run s tr) i = (\<not> rst_n i))"
  using sync_settles [of tr s] por_reset_held [of i0 tr s i]
  by (auto simp: cd_por_rst_def por_async_reset_def AsyncResetSynchronizer_rst_def)


text \<open>
  Instances: \<^verbatim>\<open>gsrn\<close> asserted at power-up; the reset still asserted one edge after the
  release; and two clean edges after a reset.
\<close>

theorem por_reset_follows_gsrn_witness:
  "por_async_reset gsrn_tick \<and> \<not> rst_n gsrn_tick \<and> cd_por_rst (power_up settled settled) gsrn_tick \<and>
   por_cycles [idle, quiet_tick] < 2 \<and>
   cd_por_rst (run (step (power_up settled settled) gsrn_tick) [idle, quiet_tick]) quiet_tick \<and>
   list_all rst_n [quiet_tick, idle, quiet_tick] \<and> 2 \<le> por_cycles [quiet_tick, idle, quiet_tick] \<and>
   cd_por_rst (run (run (power_up settled settled) [gsrn_tick]) [quiet_tick, idle, quiet_tick]) gsrn_tick \<and>
   \<not> cd_por_rst (run (run (power_up settled settled) [gsrn_tick]) [quiet_tick, idle, quiet_tick]) quiet_tick"
proof -
  define s0 where "s0 = power_up settled settled"
  define s1 where "s1 = run s0 [gsrn_tick]"
  define tr where "tr = [quiet_tick, idle, quiet_tick]"
  define tr1 where "tr1 = [idle, quiet_tick]"
  have h1: "\<not> rst_n gsrn_tick" by (simp add: gsrn_tick_def)
  have h2: "list_all rst_n tr \<and> 2 \<le> por_cycles tr"
    by (simp add: tr_def por_cycles_def quiet_tick_def idle_def)
  have h3: "rst_n quiet_tick" by (simp add: quiet_tick_def)
  have h4: "por_cycles tr1 < 2"
    by (simp add: tr1_def por_cycles_def quiet_tick_def idle_def)
  have "por_async_reset gsrn_tick \<and> \<not> rst_n gsrn_tick \<and> cd_por_rst s0 gsrn_tick \<and>
    por_cycles tr1 < 2 \<and> cd_por_rst (run (step s0 gsrn_tick) tr1) quiet_tick \<and>
    list_all rst_n tr \<and> 2 \<le> por_cycles tr \<and>
    cd_por_rst (run s1 tr) gsrn_tick \<and> \<not> cd_por_rst (run s1 tr) quiet_tick"
    using h1 h2 h3 h4
      por_reset_follows_gsrn [of gsrn_tick s0 gsrn_tick tr]
      por_reset_follows_gsrn [of gsrn_tick "run s1 tr" gsrn_tick tr]
      por_reset_follows_gsrn [of quiet_tick s1 gsrn_tick tr]
      por_reset_follows_gsrn [of quiet_tick s0 gsrn_tick tr1]
    by simp
  then show ?thesis unfolding s0_def s1_def tr_def tr1_def .
qed


section \<open>Properties of the constructors\<close>

subsection \<open>Auxiliary facts: rounding\<close>

lemma bitlen_0: "bitlen 0 = 0"
  by (simp add: bitlen.simps)

lemma bitlen_Suc_0: "bitlen (Suc 0) = 1"
  by (subst bitlen.simps) (simp add: bitlen_0)

lemma bitlen_1: "bitlen 1 = 1"
  using bitlen_Suc_0 by simp

lemma bitlen_Bit0: "bitlen (numeral (Num.Bit0 k)) = Suc (bitlen (numeral k))"
  by (subst bitlen.simps) simp

lemma bitlen_Bit1: "bitlen (numeral (Num.Bit1 k)) = Suc (bitlen (numeral k))"
  by (subst bitlen.simps) simp

lemmas bitlen_numeral = bitlen_0 bitlen_1 bitlen_Suc_0 bitlen_Bit0 bitlen_Bit1

lemma bitlen_less: "n < 2 ^ bitlen n"
proof (induction n rule: bitlen.induct)
  case (1 n)
  show ?case
  proof (cases "n = 0")
    case True
    then show ?thesis by (simp add: bitlen_0)
  next
    case False
    with 1 have "n div 2 < 2 ^ bitlen (n div 2)" by simp
    then have "n < 2 * 2 ^ bitlen (n div 2)" by linarith
    with False show ?thesis by (subst bitlen.simps) simp
  qed
qed


lemma bitlen_gt: "2 ^ k \<le> n \<Longrightarrow> k < bitlen n"
proof -
  assume "2 ^ k \<le> n"
  with bitlen_less [of n] have "(2::nat) ^ k < 2 ^ bitlen n" by linarith
  then show ?thesis by simp
qed

lemma round_half_even_error:
  assumes "0 < b"
  shows "\<bar>real (round_half_even a b) - real a / real b\<bar> \<le> 1 / 2"
proof -
  define q where "q = a div b"
  define r where "r = a mod b"
  have a: "real a = real q * real b + real r"
    unfolding q_def r_def by (metis div_mult_mod_eq of_nat_add of_nat_mult)
  have rb: "r < b" unfolding r_def using assms by simp
  have b0: "0 < real b" using assms by simp
  have quot: "real a / real b = real q + real r / real b"
    using b0 by (simp add: a add_divide_distrib)
  have frac0: "0 \<le> real r / real b" using b0 by simp
  have frac1: "real r / real b < 1" using rb b0 by simp
  consider "2 * r < b" | "b < 2 * r" | "2 * r = b \<and> even q" | "2 * r = b \<and> odd q"
    by linarith
  then show ?thesis
  proof cases
    case 1
    then have "round_half_even a b = q"
      by (simp add: round_half_even_def q_def r_def Let_def)
    moreover from 1 have "2 * real r < real b" by (metis of_nat_less_iff of_nat_mult of_nat_numeral)
    then have "real r / real b < 1 / 2" using b0 by (simp add: field_simps)
    ultimately show ?thesis using quot frac0 by simp
  next
    case 2
    then have "round_half_even a b = q + 1"
      by (simp add: round_half_even_def q_def r_def Let_def)
    moreover from 2 have "real b < 2 * real r" by (metis of_nat_less_iff of_nat_mult of_nat_numeral)
    then have "1 / 2 < real r / real b" using b0 by (simp add: field_simps)
    ultimately show ?thesis using quot frac1 by simp
  next
    case 3
    then have "round_half_even a b = q"
      by (simp add: round_half_even_def q_def r_def Let_def)
    moreover from 3 have "2 * real r = real b" by (metis of_nat_mult of_nat_numeral)
    then have "real r / real b = 1 / 2" using b0 by (simp add: field_simps)
    ultimately show ?thesis using quot by simp
  next
    case 4
    then have "round_half_even a b = q + 1"
      by (simp add: round_half_even_def q_def r_def Let_def)
    moreover from 4 have "2 * real r = real b" by (metis of_nat_mult of_nat_numeral)
    then have "real r / real b = 1 / 2" using b0 by (simp add: field_simps)
    ultimately show ?thesis using quot by simp
  qed
qed


lemma ilog2_le: "ilog2 N D \<le> int (bitlen N) - int (bitlen D)"
  by (simp add: ilog2_def Let_def)

text \<open>
  A quotient below \<open>2\<^sup>k\<^sup>+\<^sup>1\<close> with \<open>k \<le> 51\<close> is rounded to a multiple of \<open>2\<^sup>k\<^sup>-\<^sup>5\<^sup>2\<close>: the error
  is at most half of that.
\<close>

lemma round64_error:
  assumes "0 < N" and "0 < D" and "int (bitlen N) - int (bitlen D) \<le> int k" and "k \<le> 51"
  shows "\<bar>round64 N D - real N / real D\<bar> \<le> 2 ^ k / 2 ^ 53"
proof -
  define t where "t = max (ilog2 N D) (- 1022) - 52"
  define j where "j = nat (- t)"
  have "ilog2 N D \<le> int k" using ilog2_le [of N D] assms(3) by linarith
  then have t: "t \<le> int k - 52" unfolding t_def using assms(4) by simp
  then have neg: "t < 0" using assms(4) by simp
  have j: "52 \<le> j + k" unfolding j_def using t by simp
  have r: "round64 N D = real (round_half_even (N * 2 ^ j) D) / 2 ^ j"
    unfolding round64_def Let_def t_def [symmetric] j_def using assms(1) neg by simp
  have e: "\<bar>real (round_half_even (N * 2 ^ j) D) - real (N * 2 ^ j) / real D\<bar> \<le> 1 / 2"
    using assms(2) by (rule round_half_even_error)
  have "round64 N D - real N / real D =
      (real (round_half_even (N * 2 ^ j) D) - real (N * 2 ^ j) / real D) / 2 ^ j"
    by (simp add: r diff_divide_distrib)
  then have "\<bar>round64 N D - real N / real D\<bar> =
      \<bar>real (round_half_even (N * 2 ^ j) D) - real (N * 2 ^ j) / real D\<bar> / 2 ^ j"
    by (simp add: abs_divide)
  also have "\<dots> \<le> (1 / 2) / 2 ^ j"
    using e by (rule divide_right_mono) simp
  also have "\<dots> \<le> 2 ^ k / 2 ^ 53"
  proof -
    have "(2::real) ^ 53 \<le> 2 ^ (Suc j + k)"
      using j by (intro power_increasing) simp_all
    then have "(2::real) ^ 53 \<le> 2 * 2 ^ j * 2 ^ k" by (simp add: power_add)
    then show ?thesis by (simp add: field_simps)
  qed
  finally show ?thesis .
qed

subsection \<open>Auxiliary facts: what each constructor returns\<close>

lemma request_each_eq:
  "request_each p name ns =
     (p\<lparr>requested := requested p @ map (\<lambda>i. (name, Some i)) ns\<rparr>, map (\<lambda>i. (name, Some i)) ns)"
proof (induction ns arbitrary: p)
  case Nil
  then show ?case by simp
next
  case (Cons i ns)
  then show ?case by (simp add: request_def)
qed

lemma CRG_init_ok:
  "6250000 \<le> sys_clk_freq \<Longrightarrow> sys_clk_freq \<le> 800000000 \<Longrightarrow>
   CRG_init platform sys_clk_freq =
     Inr (platform\<lparr>requested := requested platform @ [(''gsrn'', None)],
                    period_constraints := period_constraints platform @
                      [(''sys_clk'', round64 1000000000 (nat sys_clk_freq))]\<rparr>,
          \<lparr>clock_domains = [''por'', ''sys''],
           hf_clk = (''por'', 25000000),
           crg_rst_n = (''gsrn'', None),
           pll_clkin = (''por_clk'', 25000000),
           pll_clkout = (''sys'', sys_clk_freq),
           por_count_init = por_count_reset\<rparr>)"
  by (simp add: CRG_init_def clko_freq_range_def request_def add_period_constraint_def)

lemma CRG_init_out_of_range:
  "sys_clk_freq < 6250000 \<or> 800000000 < sys_clk_freq \<Longrightarrow>
   CRG_init platform sys_clk_freq = Inl AssertionError"
  by (auto simp: CRG_init_def clko_freq_range_def request_def)

lemmas round_defs = binary64_def round64_def ilog2_def round_half_even_def bitlen_numeral Let_def

lemma period_75MHz: "round64 1000000000 75000000 = 7505999378950827 / 2 ^ 49"
  by (simp add: round_defs)

lemma period_100MHz: "round64 1000000000 100000000 = 10"
  by (simp add: round_defs)

lemma period_error:
  assumes "6250000 \<le> sys_clk_freq" and "sys_clk_freq \<le> 800000000"
  shows "\<bar>round64 1000000000 (nat sys_clk_freq) - 1000000000 / real_of_int sys_clk_freq\<bar>
           \<le> 1 / 2 ^ 46"
proof -
  have "(2::nat) ^ 22 \<le> nat sys_clk_freq" using assms(1) by simp
  then have "22 < bitlen (nat sys_clk_freq)" by (rule bitlen_gt)
  moreover have "bitlen 1000000000 = 30" by (simp add: bitlen_numeral)
  ultimately have d: "int (bitlen 1000000000) - int (bitlen (nat sys_clk_freq)) \<le> int 7"
    by simp
  have "\<bar>round64 1000000000 (nat sys_clk_freq) - real 1000000000 / real (nat sys_clk_freq)\<bar>
          \<le> 2 ^ 7 / 2 ^ 53"
    using assms(1) by (intro round64_error d) simp_all
  moreover have "real (nat sys_clk_freq) = real_of_int sys_clk_freq" using assms(1) by simp
  ultimately show ?thesis by simp
qed

lemmas parse_defs = float_of_string_def TransformDecimalAndSpaceToASCII_def
  float_from_string_inner_def string_to_double_def dg_strtod_def parse_inf_or_nan_def sign_def
  exponent_def decimal_def lower_def is_digit_def Py_ISSPACE_def Py_UNICODE_ISSPACE_def str_def
  round_defs

lemma float_75e6: "float_of_string todecimal (str ''75e6'') = Inr (Finite 75000000)"
  by (simp add: parse_defs)






lemma float_1e23:
  "float_of_string todecimal (str ''1e23'') = Inr (Finite 99999999999999991611392)"
  by (simp add: parse_defs)





















lemma main_soc_flag:
  "main_soc todecimal b mm (Some v) kwargs =
     (case float_of_string todecimal v of
        Inl e \<Rightarrow> Inl e
      | Inr x \<Rightarrow> (case py_int x of Inl e \<Rightarrow> Inl e | Inr n \<Rightarrow> BaseSoC_init b mm n kwargs))"
  by (simp add: main_soc_def args_sys_clk_freq_def)

lemma main_soc_default:
  "main_soc todecimal b mm None kwargs = BaseSoC_init b mm 75000000 kwargs"
  by (simp add: main_soc_def args_sys_clk_freq_def)

lemma main_soc_75e6:
  "main_soc todecimal b mm (Some (str ''75e6'')) kwargs = BaseSoC_init b mm 75000000 kwargs"
  by (simp add: main_soc_flag float_75e6)


lemma vexriscv_sram:
  "map_of (dict_update vexriscv_mem_map SoCCore_mem_map) ''sram'' = Some 0x10000000"
  by (simp add: dict_update_def vexriscv_mem_map_def SoCCore_mem_map_def)

lemma BaseSoC_init_ok:
  assumes "6250000 \<le> sys_clk_freq" and "sys_clk_freq \<le> 800000000"
    and "''ident'' \<notin> dom kwargs" and "''ident_version'' \<notin> dom kwargs"
    and "map_of (core_mem_map SoCCore_mem_map) ''sram'' = Some address"
  shows "BaseSoC_init b core_mem_map sys_clk_freq kwargs =
     Inr \<lparr>soc_platform =
            \<lparr>platform_module = platform_of b,
             commands = [''ldc_set_sysconfig {{MASTER_SPI_PORT=SERIAL}}''],
             extensions = [''serial_pmods''],
             requested = (''gsrn'', None) # map (\<lambda>i. (''user_led'', Some i)) [0..<14],
             period_constraints = [(''sys_clk'', round64 1000000000 (nat sys_clk_freq))]\<rparr>,
          core_clk_freq = sys_clk_freq,
          core_ident = ''LiteX SoC on Crosslink-NX Evaluation Board'',
          core_ident_version = True,
          core_kwargs = kwargs(''integrated_sram_size'' \<mapsto> PyInt 0),
          mem_map = core_mem_map SoCCore_mem_map,
          submodules =
            [(''crg'', Crg \<lparr>clock_domains = [''por'', ''sys''],
                            hf_clk = (''por'', 25000000),
                            crg_rst_n = (''gsrn'', None),
                            pll_clkin = (''por_clk'', 25000000),
                            pll_clkout = (''sys'', sys_clk_freq),
                            por_count_init = por_count_reset\<rparr>),
             (''spram'', Lram (lram_of b) 32 131072),
             (''leds'', LedChaser (map (\<lambda>i. (''user_led'', Some i)) [0..<14]) sys_clk_freq)],
          mem_regions = [(''sram'', address, ''spram'', 131072)],
          csrs = [''leds'']\<rparr>"
proof -
  have d: "''ident'' \<noteq> ''integrated_sram_size''" "''ident_version'' \<noteq> ''integrated_sram_size''"
    by simp_all
  show ?thesis
    unfolding BaseSoC_init_def Let_def
    using assms d
    by (simp add: CRG_init_ok request_each_eq Platform_def add_platform_command_def
        add_extension_def kB_def del: upt.simps)
qed

lemma BaseSoC_init_ident_clash:
  "''ident'' \<in> dom kwargs \<or> ''ident_version'' \<in> dom kwargs \<Longrightarrow>
   BaseSoC_init b core_mem_map sys_clk_freq kwargs = Inl TypeError"
  unfolding BaseSoC_init_def Let_def by auto

subsection \<open>The period constraint\<close>

text \<open>
  Claim C5 as the specification states it, for every requested frequency, fails at
  1 MHz: the PLL refuses the frequency, the constructor raises \<^verbatim>\<open>AssertionError\<close> and no
  period constraint is registered.
\<close>

theorem period_constraint_counterexample:
  "CRG_init (Platform ''crosslink_nx_evn'') 1000000 = Inl AssertionError"
  by (simp add: CRG_init_def clko_freq_range_def request_def)


text \<open>
  Claim C5, amended. For a requested frequency from 6.25 MHz to 800 MHz, the range the
  PLL accepts, constructing \<^verbatim>\<open>_CRG\<close> succeeds and adds exactly one period constraint to
  the platform: it is on the clock of the \<open>sys\<close> domain and its value is the float
  \<^verbatim>\<open>1e9/sys_clk_freq\<close>, the quotient rounded to a float, within \<open>2\<^sup>-\<^sup>4\<^sup>6\<close> ns of the
  reciprocal of the frequency. For every other frequency the constructor raises
  \<^verbatim>\<open>AssertionError\<close> and registers no constraint.
\<close>

theorem period_constraint_registered:
  "(6250000 \<le> sys_clk_freq \<and> sys_clk_freq \<le> 800000000 \<longrightarrow>
      (\<exists>platform' c period.
         CRG_init platform sys_clk_freq = Inr (platform', c) \<and>
         period_constraints platform' = period_constraints platform @ [(''sys_clk'', period)] \<and>
         period = round64 1000000000 (nat sys_clk_freq) \<and>
         \<bar>period - 1000000000 / real_of_int sys_clk_freq\<bar> \<le> 1 / 2 ^ 46)) \<and>
   (sys_clk_freq < 6250000 \<or> 800000000 < sys_clk_freq \<longrightarrow>
      CRG_init platform sys_clk_freq = Inl AssertionError)"
proof (intro conjI impI)
  assume r: "6250000 \<le> sys_clk_freq \<and> sys_clk_freq \<le> 800000000"
  let ?period = "round64 1000000000 (nat sys_clk_freq)"
  let ?P = "platform\<lparr>requested := requested platform @ [(''gsrn'', None)],
                       period_constraints := period_constraints platform @ [(''sys_clk'', ?period)]\<rparr>"
  have "\<exists>c. CRG_init platform sys_clk_freq = Inr (?P, c)"
    using r by (simp add: CRG_init_ok)
  moreover have "period_constraints ?P = period_constraints platform @ [(''sys_clk'', ?period)]"
    by simp
  moreover have "\<bar>?period - 1000000000 / real_of_int sys_clk_freq\<bar> \<le> 1 / 2 ^ 46"
    using r by (intro period_error) simp_all
  ultimately show "\<exists>platform' c period.
         CRG_init platform sys_clk_freq = Inr (platform', c) \<and>
         period_constraints platform' = period_constraints platform @ [(''sys_clk'', period)] \<and>
         period = round64 1000000000 (nat sys_clk_freq) \<and>
         \<bar>period - 1000000000 / real_of_int sys_clk_freq\<bar> \<le> 1 / 2 ^ 46"
    by blast
next
  assume "sys_clk_freq < 6250000 \<or> 800000000 < sys_clk_freq"
  then show "CRG_init platform sys_clk_freq = Inl AssertionError"
    by (rule CRG_init_out_of_range)
qed


text \<open>
  Instances: 100 MHz on a fresh platform gives the single constraint of 10 ns, and a
  frequency of 0 is refused before the division is reached.
\<close>

theorem period_constraint_registered_witness:
  "(6250000 :: int) \<le> 100000000 \<and> (100000000 :: int) \<le> 800000000 \<and>
   (\<exists>platform' c.
      CRG_init (Platform ''crosslink_nx_evn'') 100000000 = Inr (platform', c) \<and>
      period_constraints platform' = [(''sys_clk'', 10)]) \<and>
   (0 :: int) < 6250000 \<and>
   CRG_init (Platform ''crosslink_nx_evn'') 0 = Inl AssertionError"
proof -
  have a: "\<exists>platform' c.
      CRG_init (Platform ''crosslink_nx_evn'') 100000000 = Inr (platform', c) \<and>
      period_constraints platform' = [(''sys_clk'', 10)]"
    using period_constraint_registered [of 100000000 "Platform ''crosslink_nx_evn''"]
    by (auto simp: Platform_def period_100MHz)
  have b: "CRG_init (Platform ''crosslink_nx_evn'') 0 = Inl AssertionError"
    using period_constraint_registered [of 0 "Platform ''crosslink_nx_evn''"] by simp
  from a b show ?thesis by simp
qed


text \<open>
  Claim C6. Requesting 75 MHz registers a period constraint within 0.01 of 13.33 ns, and
  \<open>main\<close> without the flag \<^verbatim>\<open>--sys-clk-freq\<close> builds the SoC for 75 MHz, exactly as
  with \<^verbatim>\<open>--sys-clk-freq 75e6\<close>.
\<close>

theorem default_sys_clk_freq:
  "(\<exists>platform' c period.
      CRG_init platform 75000000 = Inr (platform', c) \<and>
      period_constraints platform' = period_constraints platform @ [(''sys_clk'', period)] \<and>
      \<bar>period - 13.33\<bar> < 0.01) \<and>
   main_soc todecimal b mm None kwargs = BaseSoC_init b mm 75000000 kwargs \<and>
   main_soc todecimal b mm None kwargs = main_soc todecimal b mm (Some (str ''75e6'')) kwargs"
proof -
  let ?period = "7505999378950827 / 2 ^ 49 :: real"
  let ?P = "platform\<lparr>requested := requested platform @ [(''gsrn'', None)],
                       period_constraints := period_constraints platform @ [(''sys_clk'', ?period)]\<rparr>"
  have "\<exists>c. CRG_init platform 75000000 = Inr (?P, c)"
    using CRG_init_ok [of 75000000 platform] by (simp add: period_75MHz)
  moreover have "period_constraints ?P = period_constraints platform @ [(''sys_clk'', ?period)]"
    by simp
  moreover have "\<bar>?period - 13.33\<bar> < 0.01"
    by simp
  ultimately have "\<exists>platform' c period.
      CRG_init platform 75000000 = Inr (platform', c) \<and>
      period_constraints platform' = period_constraints platform @ [(''sys_clk'', period)] \<and>
      \<bar>period - 13.33\<bar> < 0.01"
    by blast
  then show ?thesis
    using main_soc_default [of todecimal b mm kwargs] main_soc_75e6 [of todecimal b mm kwargs]
    by simp
qed


subsection \<open>The frequency \<open>main\<close> uses\<close>







subsection \<open>\<open>BaseSoC\<close>: memory and LEDs\<close>

text \<open>
  Claim C9 as the specification states it, with the region always at \<open>0x40000000\<close>, fails
  for the SoC that \<open>main\<close> builds by default: its CPU is VexRiscv, the framework's
  constructor merges the memory map of that CPU into the dictionary, and the region
  \<^verbatim>\<open>sram\<close> is registered at \<open>0x10000000\<close>.
\<close>

theorem sram_region_counterexample:
  "map_sum id mem_regions
     (BaseSoC_init Evn (dict_update vexriscv_mem_map) 75000000 Map.empty) =
     Inr [(''sram'', 0x10000000, ''spram'', 131072)]"
proof -
  have h3: "''ident'' \<notin> dom (Map.empty :: string \<rightharpoonup> pyval)" by simp
  have h4: "''ident_version'' \<notin> dom (Map.empty :: string \<rightharpoonup> pyval)" by simp
  show ?thesis
    using BaseSoC_init_ok [where core_mem_map = "dict_update vexriscv_mem_map" and b = Evn
        and sys_clk_freq = 75000000, OF _ _ h3 h4 vexriscv_sram]
    by simp
qed


text \<open>
  Claim C9, amended. Whenever the construction of \<open>BaseSoC\<close> goes through (a frequency
  the PLL accepts, no \<^verbatim>\<open>ident\<close> or \<^verbatim>\<open>ident_version\<close> among the keyword arguments, and an
  entry \<^verbatim>\<open>sram\<close> in the memory map the framework's constructor leaves), the SoC core is
  given \<^verbatim>\<open>integrated_sram_size\<close> 0 whatever the caller supplied, the other keyword
  arguments unchanged, and a 32-bit wide memory of 131072 bytes is registered as region
  \<^verbatim>\<open>sram\<close> at the address that entry holds after the framework's constructor has run.
  That address is \<open>0x40000000\<close> exactly when the constructor left the entry as the class
  sets it.
\<close>

theorem sram_region:
  assumes "6250000 \<le> sys_clk_freq" and "sys_clk_freq \<le> 800000000"
    and "''ident'' \<notin> dom kwargs" and "''ident_version'' \<notin> dom kwargs"
    and "map_of (core_mem_map SoCCore_mem_map) ''sram'' = Some address"
  shows "\<exists>self. BaseSoC_init b core_mem_map sys_clk_freq kwargs = Inr self \<and>
           core_kwargs self = kwargs(''integrated_sram_size'' \<mapsto> PyInt 0) \<and>
           core_kwargs self ''integrated_sram_size'' = Some (PyInt 0) \<and>
           map_of (submodules self) ''spram'' = Some (Lram (lram_of b) 32 131072) \<and>
           mem_regions self = [(''sram'', address, ''spram'', 131072)] \<and>
           (address = 0x40000000) =
             (map_of (core_mem_map SoCCore_mem_map) ''sram'' = map_of SoCCore_mem_map ''sram'')"
proof -
  have "(address = 0x40000000) =
      (map_of (core_mem_map SoCCore_mem_map) ''sram'' = map_of SoCCore_mem_map ''sram'')"
    using assms(5) by (auto simp: SoCCore_mem_map_def)
  with BaseSoC_init_ok [where core_mem_map = core_mem_map and b = b, OF assms]
  show ?thesis by simp
qed


text \<open>
  An instance: a caller asking for 8192 bytes of integrated SRAM, for a SoC with the
  default CPU.
\<close>

theorem sram_region_witness:
  "\<exists>self. BaseSoC_init Eval (dict_update vexriscv_mem_map) 75000000
            [''integrated_sram_size'' \<mapsto> PyInt 8192, ''cpu_type'' \<mapsto> PyStr (str ''vexriscv'')] =
            Inr self \<and>
          core_kwargs self ''integrated_sram_size'' = Some (PyInt 0) \<and>
          core_kwargs self ''cpu_type'' = Some (PyStr (str ''vexriscv'')) \<and>
          map_of (submodules self) ''spram'' = Some (Lram ''NexusLRAM'' 32 131072) \<and>
          mem_regions self = [(''sram'', 0x10000000, ''spram'', 131072)]"
proof -
  let ?kw = "[''integrated_sram_size'' \<mapsto> PyInt 8192, ''cpu_type'' \<mapsto> PyStr (str ''vexriscv'')]"
  have h1: "(6250000 :: int) \<le> 75000000" by simp
  have h2: "(75000000 :: int) \<le> 800000000" by simp
  have h3: "''ident'' \<notin> dom ?kw" by simp
  have h4: "''ident_version'' \<notin> dom ?kw" by simp
  from sram_region [where core_mem_map = "dict_update vexriscv_mem_map" and b = Eval,
      OF h1 h2 h3 h4 vexriscv_sram]
  show ?thesis by auto
qed


text \<open>
  Claim C10. Whenever the construction of \<open>BaseSoC\<close> goes through, the
  \<^verbatim>\<open>user_led\<close> resources it requests are exactly the 14 with numbers 0 to 13, in
  increasing order, and exactly one LED chaser is among the submodules: it drives these
  14 pads, in that order, and is given \<^verbatim>\<open>sys_clk_freq\<close>.
\<close>

theorem user_leds:
  assumes "6250000 \<le> sys_clk_freq" and "sys_clk_freq \<le> 800000000"
    and "''ident'' \<notin> dom kwargs" and "''ident_version'' \<notin> dom kwargs"
    and "map_of (core_mem_map SoCCore_mem_map) ''sram'' = Some address"
  shows "\<exists>self. BaseSoC_init b core_mem_map sys_clk_freq kwargs = Inr self \<and>
           filter (\<lambda>r. fst r = ''user_led'') (requested (soc_platform self)) =
             map (\<lambda>i. (''user_led'', Some i)) [0..<14] \<and>
           length (filter (\<lambda>r. fst r = ''user_led'') (requested (soc_platform self))) = 14 \<and>
           filter (\<lambda>m. case snd m of LedChaser pads f \<Rightarrow> True | _ \<Rightarrow> False) (submodules self) =
             [(''leds'', LedChaser (map (\<lambda>i. (''user_led'', Some i)) [0..<14]) sys_clk_freq)]"
proof -
  have f: "filter (\<lambda>r. fst r = ''user_led'') (map (\<lambda>i. (''user_led'', Some i)) ns) =
      map (\<lambda>i. (''user_led'', Some i)) ns" for ns :: "nat list"
    by (induction ns) simp_all
  from BaseSoC_init_ok [where core_mem_map = core_mem_map and b = b, OF assms]
  show ?thesis
    by (simp add: f del: upt.simps)
qed


text \<open>An instance: the requests of the \<^verbatim>\<open>crosslink_nx_eval\<close> target at 75 MHz.\<close>

theorem user_leds_witness:
  "\<exists>self. BaseSoC_init Eval (dict_update vexriscv_mem_map) 75000000 Map.empty = Inr self \<and>
          filter (\<lambda>r. fst r = ''user_led'') (requested (soc_platform self)) =
            [(''user_led'', Some 0), (''user_led'', Some 1), (''user_led'', Some 2),
             (''user_led'', Some 3), (''user_led'', Some 4), (''user_led'', Some 5),
             (''user_led'', Some 6), (''user_led'', Some 7), (''user_led'', Some 8),
             (''user_led'', Some 9), (''user_led'', Some 10), (''user_led'', Some 11),
             (''user_led'', Some 12), (''user_led'', Some 13)]"
proof -
  have h1: "(6250000 :: int) \<le> 75000000" by simp
  have h2: "(75000000 :: int) \<le> 800000000" by simp
  have h3: "''ident'' \<notin> dom (Map.empty :: string \<rightharpoonup> pyval)" by simp
  have h4: "''ident_version'' \<notin> dom (Map.empty :: string \<rightharpoonup> pyval)" by simp
  have u: "[0..<14] = [0, 1, 2, 3, 4, 5, 6, 7, 8, 9, 10, 11, 12, 13 :: nat]"
    by (simp add: upt_rec)
  from user_leds [where core_mem_map = "dict_update vexriscv_mem_map" and b = Eval,
      OF h1 h2 h3 h4 vexriscv_sram]
  show ?thesis
    unfolding u by auto
qed

end
